theory Spec2Isabelle
  imports Main "HOL-Library.Word"
begin

section \<open>Data model of web-locks.js\<close>

text \<open>
  JavaScript objects are mutable and referenced by identity, so every class of the file
  lives in a store of its own, indexed by a reference (a natural number); a constructor
  takes the next free reference. The cells of the \<^verbatim>\<open>SharedArrayBuffer\<close>s are
  the only memory that several execution contexts share.
\<close>

type_synonym buf = nat
type_synonym lock_ref = nat
type_synonym task_ref = nat
type_synonym signal_ref = nat
type_synonym promise_ref = nat
type_synonym handler_id = nat
type_synonym val = nat

definition LOCKED :: "32 word" where "LOCKED = 0"
definition UNLOCKED :: "32 word" where "UNLOCKED = 1"

datatype call_type = DEFAULT_CALL | DIRECT_CALL

datatype error =
    NotSupportedError
  | ModeError
  | AbortError
  | TypeError
  | Thrown val

datatype outcome = Fulfilled val | Rejected error

datatype message =
  Message (webLocks: bool) (kind: string) (msg_name: string)
          (msg_mode: "string option") (msg_buffer: "buf option")

record Lock =
  name :: string
  mode :: string
  queue :: "task_ref list"
  owner :: bool
  trying :: bool
  buffer :: buf

record Task =
  handler :: handler_id
  signal :: "signal_ref option"
  promise :: promise_ref
  rejected :: bool
  entered :: bool

record AbortSignal =
  aborted :: bool
  listeners :: "task_ref list"

datatype continuation = Cont "lock_ref option" promise_ref

datatype event =
    Sent message
  | Invoked promise_ref handler_id "lock_ref option"
  | Settled promise_ref outcome
  | Uncaught error

record ctx =
  memory :: "buf \<Rightarrow> 32 word"
  nbufs :: nat
  lockh :: "lock_ref \<Rightarrow> Lock"
  nlocks :: nat
  taskh :: "task_ref \<Rightarrow> Task"
  ntasks :: nat
  signalh :: "signal_ref \<Rightarrow> AbortSignal"
  nsignals :: nat
  npromises :: nat
  collection :: "(string \<times> lock_ref) list"
  timers :: "lock_ref list"
  running :: "continuation list"
  trace :: "event list"

record options =
  opt_mode :: "string option"
  opt_signal :: "signal_ref option"
  ifAvailable :: bool
  steal :: bool

record Snapshot =
  held :: "lock_ref list"
  pending :: "task_ref list"

section \<open>Primitive effects\<close>

definition Atomics_store :: "buf \<Rightarrow> 32 word \<Rightarrow> ctx \<Rightarrow> ctx" where
  "Atomics_store b v s = s\<lparr>memory := (memory s)(b := v)\<rparr>"

definition Atomics_exchange :: "buf \<Rightarrow> 32 word \<Rightarrow> ctx \<Rightarrow> 32 word \<times> ctx" where
  "Atomics_exchange b v s = (memory s b, s\<lparr>memory := (memory s)(b := v)\<rparr>)"

definition upd_lock :: "lock_ref \<Rightarrow> (Lock \<Rightarrow> Lock) \<Rightarrow> ctx \<Rightarrow> ctx" where
  "upd_lock l f s = s\<lparr>lockh := (lockh s)(l := f (lockh s l))\<rparr>"

definition upd_task :: "task_ref \<Rightarrow> (Task \<Rightarrow> Task) \<Rightarrow> ctx \<Rightarrow> ctx" where
  "upd_task t f s = s\<lparr>taskh := (taskh s)(t := f (taskh s t))\<rparr>"

definition upd_signal :: "signal_ref \<Rightarrow> (AbortSignal \<Rightarrow> AbortSignal) \<Rightarrow> ctx \<Rightarrow> ctx" where
  "upd_signal g f s = s\<lparr>signalh := (signalh s)(g := f (signalh s g))\<rparr>"

definition emit :: "event \<Rightarrow> ctx \<Rightarrow> ctx" where
  "emit e s = s\<lparr>trace := trace s @ [e]\<rparr>"

definition send :: "message \<Rightarrow> ctx \<Rightarrow> ctx" where
  "send m s = emit (Sent m) s"

definition settle :: "promise_ref \<Rightarrow> outcome \<Rightarrow> ctx \<Rightarrow> ctx" where
  "settle p out s = emit (Settled p out) s"

definition invoke :: "promise_ref \<Rightarrow> handler_id \<Rightarrow> lock_ref option \<Rightarrow> continuation \<Rightarrow> ctx \<Rightarrow> ctx" where
  "invoke p h arg k s = (emit (Invoked p h arg) s)\<lparr>running := running s @ [k]\<rparr>"

definition new_Promise :: "ctx \<Rightarrow> promise_ref \<times> ctx" where
  "new_Promise s = (npromises s, s\<lparr>npromises := Suc (npromises s)\<rparr>)"

section \<open>class Lock\<close>

text \<open>
  \<^verbatim>\<open>new SharedArrayBuffer(4)\<close> is a buffer no Lock is bound to yet: the constructor
  takes the next free handle, and a handle that arrives in a message moves the next
  free handle past itself.
\<close>

definition new_Lock :: "string \<Rightarrow> string option \<Rightarrow> buf option \<Rightarrow> ctx \<Rightarrow> lock_ref \<times> ctx" where
  "new_Lock n mo b s =
     (let (bf, s1) = (case b of
                        Some bf \<Rightarrow> (bf, s\<lparr>nbufs := max (nbufs s) (Suc bf)\<rparr>)
                      | None \<Rightarrow> (nbufs s, s\<lparr>memory := (memory s)(nbufs s := 0),
                                             nbufs := Suc (nbufs s)\<rparr>));
          s2 = (case b of None \<Rightarrow> Atomics_store bf UNLOCKED s1 | Some _ \<Rightarrow> s1);
          l = nlocks s2
      in (l, s2\<lparr>lockh := (lockh s2)(l :=
                  \<lparr>name = n,
                   mode = (case mo of None \<Rightarrow> ''exclusive'' | Some m \<Rightarrow> m),
                   queue = [], owner = False, trying = False, buffer = bf\<rparr>),
                nlocks := Suc l\<rparr>))"

definition enter :: "lock_ref \<Rightarrow> handler_id \<Rightarrow> signal_ref option \<Rightarrow> ctx \<Rightarrow> promise_ref \<times> ctx" where
  "enter l h sg s =
     (let (p, s1) = new_Promise s;
          t = ntasks s1;
          s2 = s1\<lparr>taskh := (taskh s1)(t :=
                    \<lparr>handler = h, signal = sg, promise = p,
                     rejected = False, entered = False\<rparr>),
                  ntasks := Suc t\<rparr>;
          s3 = upd_lock l (\<lambda>L. L\<lparr>queue := queue L @ [t]\<rparr>) s2;
          s4 = upd_lock l (\<lambda>L. L\<lparr>trying := True\<rparr>) s3
      in case sg of
           None \<Rightarrow> (p, settle p (Rejected TypeError) s4)
         | Some g \<Rightarrow>
             (let s5 = upd_signal g (\<lambda>G. G\<lparr>listeners := listeners G @ [t]\<rparr>) s4
              in (p, s5\<lparr>timers := timers s5 @ [l]\<rparr>)))"

function tryEnter :: "lock_ref \<Rightarrow> ctx \<Rightarrow> error option \<times> ctx"
  and leave :: "lock_ref \<Rightarrow> ctx \<Rightarrow> error option \<times> ctx" where
  "tryEnter l s =
     (case queue (lockh s l) of
        [] \<Rightarrow> (None, s)
      | t # q \<Rightarrow>
          (let (prev, s1) = Atomics_exchange (buffer (lockh s l)) LOCKED s
           in if prev = LOCKED then (None, s1)
              else
                (let s2 = upd_lock l (\<lambda>L. L\<lparr>owner := True\<rparr>) s1;
                     s3 = upd_lock l (\<lambda>L. L\<lparr>trying := False\<rparr>) s2;
                     s4 = upd_lock l (\<lambda>L. L\<lparr>queue := q\<rparr>) s3;
                     s5 = upd_task t (\<lambda>T. T\<lparr>entered := True\<rparr>) s4;
                     T = taskh s5 t
                 in case signal T of
                      None \<Rightarrow> (Some TypeError, s5)
                    | Some g \<Rightarrow>
                        if aborted (signalh s5 g) then
                          (case leave l s5 of
                             (Some e, s6) \<Rightarrow> (Some e, s6)
                           | (None, s6) \<Rightarrow>
                               (None, if \<not> rejected T
                                      then settle (promise T) (Rejected AbortError) s6
                                      else s6))
                        else
                          (None, invoke (promise T) (handler T) (Some l)
                                        (Cont (Some l) (promise T)) s5))))"
| "leave l s =
     (if \<not> owner (lockh s l) then (None, s)
      else
        (let s1 = Atomics_store (buffer (lockh s l)) UNLOCKED s;
             s2 = upd_lock l (\<lambda>L. L\<lparr>owner := False\<rparr>) s1;
             s3 = send (Message True ''leave'' (name (lockh s2 l)) None None) s2
         in tryEnter l s3))"
  by pat_completeness auto
termination
  by (relation "measure (\<lambda>x. case x of
        Inl (l, s) \<Rightarrow> 2 * length (queue (lockh s l)) + 1
      | Inr (l, s) \<Rightarrow> 2 * length (queue (lockh s l)) + 2)")
     (auto simp: Atomics_exchange_def Atomics_store_def upd_lock_def upd_task_def
                 send_def emit_def)

declare tryEnter.simps [simp del] leave.simps [simp del]

definition tryDirect :: "lock_ref \<Rightarrow> handler_id \<Rightarrow> ctx \<Rightarrow> promise_ref \<times> ctx" where
  "tryDirect l h s =
     (let (p, s0) = new_Promise s;
          s1 = (if queue (lockh s0 l) \<noteq> []
                then invoke p h None (Cont None p) s0 else s0);
          (prev, s2) = Atomics_exchange (buffer (lockh s1 l)) LOCKED s1;
          s3 = (if prev = LOCKED then invoke p h None (Cont None p) s2 else s2);
          s4 = upd_lock l (\<lambda>L. L\<lparr>owner := True\<rparr>) s3
      in (p, invoke p h (Some l) (Cont (Some l) p) s4))"

section \<open>Asynchronous callbacks\<close>

text \<open>
  A handler is an opaque asynchronous function: calling it is recorded in the trace and
  leaves a continuation in \<open>running\<close>; the promise it returned settles later, as an event
  of its own. \<open>Cont None p\<close> is \<^verbatim>\<open>.then(resolve).catch(reject)\<close>, and
  \<open>Cont (Some l) p\<close> is the pair of callbacks that call \<^verbatim>\<open>this.leave()\<close> first.
  An exception thrown inside the \<^verbatim>\<open>then\<close> callback reaches the \<^verbatim>\<open>catch\<close>
  callback; one thrown inside the \<^verbatim>\<open>catch\<close> callback is caught by nobody.
\<close>

fun complete :: "continuation \<Rightarrow> outcome \<Rightarrow> ctx \<Rightarrow> ctx" where
  "complete (Cont None p) out s = settle p out s"
| "complete (Cont (Some l) p) (Fulfilled v) s =
     (case leave l s of
        (None, s1) \<Rightarrow> settle p (Fulfilled v) s1
      | (Some e, s1) \<Rightarrow>
          (case leave l s1 of
             (None, s2) \<Rightarrow> settle p (Rejected e) s2
           | (Some e2, s2) \<Rightarrow> emit (Uncaught e2) s2))"
| "complete (Cont (Some l) p) (Rejected e) s =
     (case leave l s of
        (None, s1) \<Rightarrow> settle p (Rejected e) s1
      | (Some e2, s1) \<Rightarrow> emit (Uncaught e2) s1)"

definition handler_done :: "nat \<Rightarrow> outcome \<Rightarrow> ctx \<Rightarrow> ctx" where
  "handler_done i out s =
     (if i < length (running s)
      then complete (running s ! i) out
             (s\<lparr>running := take i (running s) @ drop (Suc i) (running s)\<rparr>)
      else s)"

definition timeout :: "ctx \<Rightarrow> ctx" where
  "timeout s =
     (case timers s of
        [] \<Rightarrow> s
      | l # ls \<Rightarrow>
          (case tryEnter l (s\<lparr>timers := ls\<rparr>) of
             (None, s1) \<Rightarrow> s1
           | (Some e, s1) \<Rightarrow> emit (Uncaught e) s1))"

section \<open>class AbortSignal, class AbortController\<close>

definition new_AbortController :: "ctx \<Rightarrow> signal_ref \<times> ctx" where
  "new_AbortController s =
     (nsignals s,
      s\<lparr>signalh := (signalh s)(nsignals s := \<lparr>aborted = False, listeners = []\<rparr>),
        nsignals := Suc (nsignals s)\<rparr>)"

definition on_abort :: "task_ref \<Rightarrow> ctx \<Rightarrow> ctx" where
  "on_abort t s =
     (if \<not> entered (taskh s t)
      then settle (promise (taskh s t)) (Rejected AbortError)
             (upd_task t (\<lambda>T. T\<lparr>rejected := True\<rparr>) s)
      else s)"

fun fire :: "task_ref list \<Rightarrow> ctx \<Rightarrow> ctx" where
  "fire [] s = s"
| "fire (t # ts) s = fire ts (on_abort t s)"

definition abort :: "signal_ref \<Rightarrow> ctx \<Rightarrow> ctx" where
  "abort g s =
     (let s1 = upd_signal g (\<lambda>G. G\<lparr>aborted := True\<rparr>) s;
          ls = listeners (signalh s1 g);
          s2 = upd_signal g (\<lambda>G. G\<lparr>listeners := []\<rparr>) s1
      in fire ls s2)"

section \<open>class LockManagerSnapshot\<close>

fun scan :: "lock_ref list \<Rightarrow> ctx \<Rightarrow> Snapshot \<Rightarrow> Snapshot" where
  "scan [] s sn = sn"
| "scan (l # ls) s sn =
     (let sn1 = (if length (queue (lockh s l)) > 0
                 then sn\<lparr>pending := pending sn @ queue (lockh s l)\<rparr> else sn);
          sn2 = (if owner (lockh s l) then sn1\<lparr>held := held sn1 @ [l]\<rparr> else sn1)
      in scan ls s sn2)"

definition LockManagerSnapshot :: "lock_ref list option \<Rightarrow> ctx \<Rightarrow> error + Snapshot" where
  "LockManagerSnapshot resources s =
     (case resources of
        None \<Rightarrow> Inl TypeError
      | Some ls \<Rightarrow> Inr (scan ls s \<lparr>held = [], pending = []\<rparr>))"

section \<open>class LockManager\<close>

definition init :: ctx where
  "init = \<lparr>memory = (\<lambda>_. 0), nbufs = 0,
           lockh = (\<lambda>_. \<lparr>name = [], mode = [], queue = [], owner = False,
                          trying = False, buffer = 0\<rparr>), nlocks = 0,
           taskh = (\<lambda>_. \<lparr>handler = 0, signal = None, promise = 0,
                          rejected = False, entered = False\<rparr>), ntasks = 0,
           signalh = (\<lambda>_. \<lparr>aborted = False, listeners = []\<rparr>), nsignals = 0,
           npromises = 0, collection = [], timers = [], running = [], trace = []\<rparr>"

definition collection_get :: "string \<Rightarrow> ctx \<Rightarrow> lock_ref option" where
  "collection_get n s = map_of (collection s) n"

fun alist_set :: "'k \<Rightarrow> 'v \<Rightarrow> ('k \<times> 'v) list \<Rightarrow> ('k \<times> 'v) list" where
  "alist_set k v [] = [(k, v)]"
| "alist_set k v (p # ps) = (if fst p = k then (k, v) # ps else p # alist_set k v ps)"

definition collection_set :: "string \<Rightarrow> lock_ref \<Rightarrow> ctx \<Rightarrow> ctx" where
  "collection_set n l s = s\<lparr>collection := alist_set n l (collection s)\<rparr>"

definition collection_values :: "ctx \<Rightarrow> lock_ref list" where
  "collection_values s = map snd (collection s)"

definition mode_of :: "options \<Rightarrow> string" where
  "mode_of opts = (case opt_mode opts of None \<Rightarrow> ''exclusive'' | Some m \<Rightarrow> m)"

definition validate :: "string \<Rightarrow> options \<Rightarrow> error option" where
  "validate n opts =
     (if (case n of [] \<Rightarrow> False | c # _ \<Rightarrow> c = CHR ''-'') then Some NotSupportedError
      else if steal opts \<and> ifAvailable opts then Some NotSupportedError
      else if steal opts \<and> mode_of opts \<noteq> ''exclusive'' then Some NotSupportedError
      else if opt_signal opts \<noteq> None \<and> (steal opts \<or> ifAvailable opts)
        then Some NotSupportedError
      else None)"

definition requestLock :: "string \<Rightarrow> string \<Rightarrow> ctx \<Rightarrow> (error + lock_ref) \<times> ctx" where
  "requestLock n mo s =
     (case collection_get n s of
        None \<Rightarrow>
          (let (l, s1) = new_Lock n (Some mo) None s;
               s2 = collection_set n l s1;
               s3 = send (Message True ''create'' n (Some mo) (Some (buffer (lockh s2 l)))) s2
           in (Inr l, s3))
      | Some l \<Rightarrow>
          if mode (lockh s l) \<noteq> mo then (Inl ModeError, s) else (Inr l, s))"

definition signal_aborted :: "signal_ref option \<Rightarrow> ctx \<Rightarrow> bool" where
  "signal_aborted sg s = (case sg of None \<Rightarrow> False | Some g \<Rightarrow> aborted (signalh s g))"

definition request :: "string \<Rightarrow> options \<Rightarrow> handler_id \<Rightarrow> ctx \<Rightarrow> (error + promise_ref) \<times> ctx" where
  "request n opts h s =
     (case validate n opts of
        Some e \<Rightarrow> (Inl e, s)
      | None \<Rightarrow>
          (case requestLock n (mode_of opts) s of
             (Inl e, s1) \<Rightarrow> (Inl e, s1)
           | (Inr l, s1) \<Rightarrow>
               if signal_aborted (opt_signal opts) s1 then (Inl AbortError, s1)
               else
                 (let type = (if ifAvailable opts then DIRECT_CALL else DEFAULT_CALL)
                  in case type of
                       DEFAULT_CALL \<Rightarrow>
                         (let (p, s2) = enter l h (opt_signal opts) s1 in (Inr p, s2))
                     | DIRECT_CALL \<Rightarrow>
                         (let (p, s2) = tryDirect l h s1 in (Inr p, s2)))))"

definition default_options :: options where
  "default_options = \<lparr>opt_mode = None, opt_signal = None, ifAvailable = False, steal = False\<rparr>"

definition query :: "ctx \<Rightarrow> error + Snapshot" where
  "query s = LockManagerSnapshot None s"

fun wake :: "lock_ref list \<Rightarrow> string \<Rightarrow> ctx \<Rightarrow> error option \<times> ctx" where
  "wake [] n s = (None, s)"
| "wake (l # ls) n s =
     (if name (lockh s l) = n \<and> trying (lockh s l)
      then (case tryEnter l s of
              (Some e, s1) \<Rightarrow> (Some e, s1)
            | (None, s1) \<Rightarrow> wake ls n s1)
      else wake ls n s)"

definition receive :: "message \<Rightarrow> ctx \<Rightarrow> error option \<times> ctx" where
  "receive m s =
     (if \<not> webLocks m then (None, s)
      else if kind m = ''create'' then
        (let (l, s1) = new_Lock (msg_name m) (msg_mode m) (msg_buffer m) s
         in (None, collection_set (msg_name m) l s1))
      else if kind m = ''leave'' then wake (collection_values s) (msg_name m) s
      else (None, s))"

section \<open>Scenarios\<close>

text \<open>
  Concrete runs of the public API, used to evaluate the code at explicit inputs.
  In \<open>ctx_blocked\<close> a peer holds the flag of \<open>''a''\<close> and the local task has retried in
  vain. In \<open>ctx_released\<close> a first handler has held \<open>''a''\<close> and finished. In
  \<open>ctx_entry\<close> a task was then queued on that lock through \<^verbatim>\<open>enter\<close> with a signal
  that was aborted before, so that no listener has marked it, and a second task waits
  behind it; in \<open>ctx_entry_unsignalled\<close> that second task comes from a
  request made without a signal. In \<open>ctx_unsignalled_waiter\<close> handler 7 holds \<open>''a''\<close> and a
  request made without a signal has queued its task behind it.
  \<open>share a b\<close> is context \<open>b\<close> taking its next turn after context \<open>a\<close>: the two have
  nothing in common but the shared memory cells.
\<close>

definition signal_options :: "signal_ref \<Rightarrow> options" where
  "signal_options g =
     \<lparr>opt_mode = None, opt_signal = Some g, ifAvailable = False, steal = False\<rparr>"

definition direct_options :: options where
  "direct_options =
     \<lparr>opt_mode = None, opt_signal = None, ifAvailable = True, steal = False\<rparr>"

definition shared_signal_options :: "signal_ref \<Rightarrow> options" where
  "shared_signal_options g =
     \<lparr>opt_mode = Some ''shared'', opt_signal = Some g, ifAvailable = False, steal = False\<rparr>"

definition ctx_waiting :: ctx where
  "ctx_waiting = snd (request ''a'' (signal_options 0) 7 (snd (new_AbortController init)))"

definition ctx_held :: ctx where
  "ctx_held = timeout ctx_waiting"

definition ctx_contended :: ctx where
  "ctx_contended = snd (request ''a'' (signal_options 0) 8 ctx_held)"

definition ctx_aborted :: ctx where
  "ctx_aborted = abort 0 ctx_waiting"

definition ctx_blocked :: ctx where
  "ctx_blocked = timeout (Atomics_store 0 LOCKED ctx_waiting)"

definition leave_a :: message where
  "leave_a = Message True ''leave'' ''a'' None None"

definition ctx_released :: ctx where
  "ctx_released =
     handler_done 0 (Fulfilled 0)
       (timeout (snd (request ''a'' (signal_options 1) 6
          (snd (new_AbortController (snd (new_AbortController init)))))))"

definition ctx_entry :: ctx where
  "ctx_entry =
     snd (request ''a'' (signal_options 1) 8
       (snd (enter 0 7 (Some 0) (abort 0 ctx_released))))"

definition ctx_entry_unsignalled :: ctx where
  "ctx_entry_unsignalled =
     snd (request ''a'' default_options 8
       (snd (enter 0 7 (Some 0) (abort 0 ctx_released))))"

definition ctx_unsignalled_waiter :: ctx where
  "ctx_unsignalled_waiter = snd (request ''a'' default_options 8 ctx_held)"

definition share :: "ctx \<Rightarrow> ctx \<Rightarrow> ctx" where
  "share a b = b\<lparr>memory := memory a, nbufs := nbufs a\<rparr>"

definition create_a :: message where
  "create_a = Message True ''create'' ''a'' (Some ''exclusive'') (Some 0)"

definition peer_bound :: ctx where
  "peer_bound = snd (receive create_a (share ctx_waiting init))"

definition holder :: ctx where
  "holder = timeout (share peer_bound ctx_waiting)"

definition peer_direct :: ctx where
  "peer_direct = snd (request ''a'' direct_options 9 (share holder peer_bound))"

section \<open>Views of the registry\<close>

definition registry :: "ctx \<Rightarrow> (string \<times> Lock) list" where
  "registry s = map (\<lambda>(n, l). (n, lockh s l)) (collection s)"

section \<open>The two halves of an acquisition\<close>

text \<open>
  \<open>acquired l s\<close> is the state \<^verbatim>\<open>tryEnter\<close> reaches once its exchange has
  succeeded and the head task is dequeued and marked; \<open>released l s\<close> is the state
  \<^verbatim>\<open>leave\<close> reaches just before it calls \<^verbatim>\<open>tryEnter\<close> again.
\<close>

definition acquired :: "lock_ref \<Rightarrow> ctx \<Rightarrow> ctx" where
  "acquired l s =
     (case queue (lockh s l) of
        [] \<Rightarrow> s
      | t # q \<Rightarrow>
          upd_task t (\<lambda>T. T\<lparr>entered := True\<rparr>)
            (upd_lock l (\<lambda>L. L\<lparr>owner := True, trying := False, queue := q\<rparr>)
               (snd (Atomics_exchange (buffer (lockh s l)) LOCKED s))))"

definition released :: "lock_ref \<Rightarrow> ctx \<Rightarrow> ctx" where
  "released l s =
     send (Message True ''leave'' (name (lockh s l)) None None)
       (upd_lock l (\<lambda>L. L\<lparr>owner := False\<rparr>)
          (Atomics_store (buffer (lockh s l)) UNLOCKED s))"


definition mentions :: "promise_ref \<Rightarrow> event \<Rightarrow> bool" where
  "mentions p e =
     (case e of Invoked q _ _ \<Rightarrow> q = p | Settled q _ \<Rightarrow> q = p | _ \<Rightarrow> False)"

section \<open>Runs of a context\<close>

text \<open>
  What can happen to a context, one turn of its event loop at a time: a request, the
  oldest pending timer, an abort of a signal, the settling of the promise of a running
  handler, a message from a peer, the creation of an \<^verbatim>\<open>AbortController\<close>; and,
  between two turns, a peer context writing a shared cell (its exchange or its store).
  An exception that leaves a timer callback or a message listener is uncaught.
\<close>

datatype action =
    Request string options handler_id
  | Timeout
  | Abort signal_ref
  | HandlerDone nat outcome
  | Receive message
  | NewAbortController
  | PeerStore buf "32 word"

fun step :: "action \<Rightarrow> ctx \<Rightarrow> ctx" where
  "step (Request n opts h) s = snd (request n opts h s)"
| "step Timeout s = timeout s"
| "step (Abort g) s = abort g s"
| "step (HandlerDone i out) s = handler_done i out s"
| "step (Receive m) s =
     (case receive m s of (None, s1) \<Rightarrow> s1 | (Some e, s1) \<Rightarrow> emit (Uncaught e) s1)"
| "step NewAbortController s = snd (new_AbortController s)"
| "step (PeerStore b v) s = Atomics_store b v s"

fun run :: "action list \<Rightarrow> ctx \<Rightarrow> ctx" where
  "run [] s = s"
| "run (a # as) s = run as (step a s)"

definition about :: "promise_ref \<Rightarrow> event list \<Rightarrow> event list" where
  "about p tr = filter (mentions p) tr"






section \<open>Evaluation rules\<close>

lemmas prim_defs = Atomics_store_def Atomics_exchange_def upd_lock_def upd_task_def
  upd_signal_def emit_def send_def settle_def invoke_def new_Promise_def

lemmas api_defs = request_def validate_def mode_of_def requestLock_def collection_get_def
  collection_set_def collection_values_def new_Lock_def enter_def tryDirect_def
  signal_aborted_def timeout_def receive_def abort_def on_abort_def
  new_AbortController_def UNLOCKED_def LOCKED_def tryEnter.simps leave.simps Let_def

lemmas scenario_defs = init_def signal_options_def direct_options_def
  shared_signal_options_def default_options_def ctx_waiting_def ctx_held_def
  ctx_contended_def ctx_aborted_def share_def create_a_def peer_bound_def holder_def
  peer_direct_def ctx_blocked_def leave_a_def ctx_entry_def ctx_unsignalled_waiter_def
  ctx_entry_unsignalled_def ctx_released_def handler_done_def

section \<open>Direct mode\<close>

lemma tryDirect_trace:
  "trace (snd (tryDirect l h s)) =
     trace s
     @ (if queue (lockh s l) \<noteq> [] then [Invoked (npromises s) h None] else [])
     @ (if memory s (buffer (lockh s l)) = LOCKED then [Invoked (npromises s) h None] else [])
     @ [Invoked (npromises s) h (Some l)]"
  by (simp add: tryDirect_def prim_defs Let_def)

lemma tryDirect_owner: "owner (lockh (snd (tryDirect l h s)) l)"
  by (simp add: tryDirect_def prim_defs Let_def)

text \<open>
  C1 (the handler of \<^verbatim>\<open>tryDirect\<close> is invoked exactly once per call). The code
  has no early return after either unavailable branch: in \<open>ctx_contended\<close> lock \<open>''a''\<close>
  is held by a running handler and a second task waits in its queue; a request with
  \<^verbatim>\<open>ifAvailable\<close> there calls its handler three times, twice with \<^verbatim>\<open>null\<close> and
  once with the lock itself.
\<close>

theorem tryDirect_invokes_handler_three_times:
  "trace (snd (request ''a'' direct_options 9 ctx_contended)) =
     trace ctx_contended @ [Invoked 2 9 None, Invoked 2 9 None, Invoked 2 9 (Some 0)]"
  by (simp add: scenario_defs api_defs prim_defs)

section \<open>Snapshots\<close>

lemma scan_eq:
  "scan ls s sn =
     \<lparr>held = held sn @ filter (\<lambda>l. owner (lockh s l)) ls,
      pending = pending sn @ concat (map (\<lambda>l. queue (lockh s l)) ls)\<rparr>"
  by (induction ls arbitrary: sn) (simp_all add: Let_def)

lemma LockManagerSnapshot_of_resources:
  "LockManagerSnapshot (Some ls) s =
     Inr \<lparr>held = filter (\<lambda>l. owner (lockh s l)) ls,
          pending = concat (map (\<lambda>l. queue (lockh s l)) ls)\<rparr>"
  by (simp add: LockManagerSnapshot_def scan_eq)

text \<open>
  C2 (\<^verbatim>\<open>query()\<close> returns the snapshot of the local collection and never fails).
  The constructor of \<^verbatim>\<open>LockManagerSnapshot\<close> iterates over its argument
  \<^verbatim>\<open>resources\<close>, and \<^verbatim>\<open>query\<close> calls it with no argument: in every state of the
  registry the call throws a \<^verbatim>\<open>TypeError\<close> and no snapshot is returned.
\<close>

theorem query_throws_TypeError: "query s = Inl TypeError"
  by (simp add: query_def LockManagerSnapshot_def)

section \<open>Requests without a signal\<close>

lemma enter_without_signal:
  "enter l h None s = (p, s') \<Longrightarrow>
     p = npromises s \<and> trace s' = trace s @ [Settled p (Rejected TypeError)] \<and>
     timers s' = timers s \<and> running s' = running s \<and>
     queue (lockh s' l) = queue (lockh s l) @ [ntasks s] \<and> trying (lockh s' l)"
  by (auto simp add: enter_def prim_defs Let_def)

text \<open>
  C5 (a request without a signal is enqueued, acquires and settles normally).
  \<^verbatim>\<open>request\<close> defaults the signal to \<^verbatim>\<open>null\<close> and \<^verbatim>\<open>enter\<close> calls
  \<^verbatim>\<open>signal.addEventListener\<close> on it: the first request of a fresh registry, made
  without options, pushes its task, then its promise is rejected with a
  \<^verbatim>\<open>TypeError\<close>, no retry is scheduled and no handler runs.
\<close>

theorem request_without_signal_rejects:
  "fst (request ''a'' default_options 7 init) = Inr 0 \<and>
   trace (snd (request ''a'' default_options 7 init)) =
     [Sent (Message True ''create'' ''a'' (Some ''exclusive'') (Some 0)),
      Settled 0 (Rejected TypeError)] \<and>
   queue (lockh (snd (request ''a'' default_options 7 init)) 0) = [0] \<and>
   timers (snd (request ''a'' default_options 7 init)) = [] \<and>
   running (snd (request ''a'' default_options 7 init)) = []"
  by (simp add: scenario_defs api_defs prim_defs)

section \<open>Mutual exclusion\<close>

text \<open>
  C4 (at most one handler runs for a name, at most one owner flag is true for a shared
  flag). Two contexts are bound to the same cell 0 for \<open>''a''\<close>. In \<open>holder\<close> the first
  context has acquired the flag through \<^verbatim>\<open>tryEnter\<close> and its handler 7 is still
  running. The peer then makes a request with \<^verbatim>\<open>ifAvailable\<close>: its exchange finds
  the flag LOCKED, and \<^verbatim>\<open>tryDirect\<close> still sets \<^verbatim>\<open>owner\<close> and calls handler 9
  with the lock. Both owner flags are true and both handlers run.
\<close>

theorem tryDirect_breaks_mutual_exclusion:
  "owner (lockh holder 0) \<and> owner (lockh peer_direct 0) \<and>
   buffer (lockh holder 0) = buffer (lockh peer_direct 0) \<and>
   trace holder = [Sent create_a, Invoked 0 7 (Some 0)] \<and>
   running holder = [Cont (Some 0) 0] \<and>
   trace peer_direct = [Invoked 0 9 None, Invoked 0 9 (Some 0)] \<and>
   running peer_direct = [Cont None 0, Cont (Some 0) 0]"
  by (simp add: scenario_defs api_defs prim_defs)

section \<open>The registry: \<^verbatim>\<open>receive\<close> and \<^verbatim>\<open>request\<close>\<close>

lemma map_of_alist_set: "map_of (alist_set k v xs) k = Some v"
  by (induction xs) auto

text \<open>
  C3 (receiving \<^verbatim>\<open>Create\<close> is idempotent and leaves a registered Lock unchanged).
  \<^verbatim>\<open>receive\<close> constructs a Lock and stores it under the name whether or not one is
  registered, where \<^verbatim>\<open>request\<close> looks the name up first and keeps the Lock it
  finds. In \<open>ctx_waiting\<close> the lock \<open>''a''\<close> has one queued task and is retrying;
  after a \<^verbatim>\<open>Create\<close> message for \<open>''a''\<close> the registry holds a fresh Lock with an
  empty queue that is not retrying.
\<close>

theorem receive_create_not_idempotent:
  "collection_get ''a'' ctx_waiting = Some 0 \<and>
   queue (lockh ctx_waiting 0) = [0] \<and> trying (lockh ctx_waiting 0) \<and>
   collection_get ''a'' (snd (receive create_a ctx_waiting)) = Some 1 \<and>
   queue (lockh (snd (receive create_a ctx_waiting)) 1) = [] \<and>
   \<not> trying (lockh (snd (receive create_a ctx_waiting)) 1) \<and>
   registry (snd (receive create_a ctx_waiting)) \<noteq> registry ctx_waiting"
  by (simp add: scenario_defs api_defs prim_defs registry_def)

text \<open>
  What the overwrite costs. In \<open>ctx_blocked\<close> the task of \<open>''a''\<close> waits for the peer
  that holds the flag. When the peer releases and its release message arrives, the
  wake loop of \<^verbatim>\<open>receive\<close> retries the lock and the handler runs. When a
  \<^verbatim>\<open>Create\<close> message for \<open>''a''\<close> has arrived in between, the lock with the waiting
  task is no longer in the collection: the same release wakes nothing, and the task
  stays queued on a free flag.
\<close>

theorem receive_create_loses_wakeup:
  "trace (run [PeerStore 0 UNLOCKED, Receive leave_a] ctx_blocked) =
     trace ctx_blocked @ [Invoked 0 7 (Some 0)] \<and>
   trace (run [Receive create_a, PeerStore 0 UNLOCKED, Receive leave_a] ctx_blocked) =
     trace ctx_blocked \<and>
   queue (lockh (run [Receive create_a, PeerStore 0 UNLOCKED, Receive leave_a] ctx_blocked) 0)
     = [0] \<and>
   timers (run [Receive create_a, PeerStore 0 UNLOCKED, Receive leave_a] ctx_blocked) = [] \<and>
   memory (run [Receive create_a, PeerStore 0 UNLOCKED, Receive leave_a] ctx_blocked) 0
     = UNLOCKED"
  by (simp add: scenario_defs api_defs prim_defs)

text \<open>
  C8 (mode immutability). For a name with a registered Lock, lines 161 to 168 of
  \<^verbatim>\<open>request\<close> (\<open>requestLock\<close>) fail with the mode error and leave the state as it
  was when the requested mode differs, and return the registered Lock, with no state
  change, when it matches. For the whole of \<^verbatim>\<open>request\<close>: with a different mode
  the state is unchanged and the call fails, with the mode error unless the option
  checks of lines 153 to 159 have already refused the options; with the same mode the
  registered Lock is the one handed to \<^verbatim>\<open>enter\<close> or \<^verbatim>\<open>tryDirect\<close>.
\<close>

theorem request_mode_immutable:
  assumes "collection_get n s = Some l"
  shows "(mode (lockh s l) \<noteq> mo \<longrightarrow> requestLock n mo s = (Inl ModeError, s)) \<and>
         (mode (lockh s l) = mo \<longrightarrow> requestLock n mo s = (Inr l, s)) \<and>
         (mode (lockh s l) \<noteq> mode_of opts \<longrightarrow>
            snd (request n opts h s) = s \<and>
            (case validate n opts of
               None \<Rightarrow> fst (request n opts h s) = Inl ModeError
             | Some e \<Rightarrow> fst (request n opts h s) = Inl e)) \<and>
         (mode (lockh s l) = mode_of opts \<longrightarrow> validate n opts = None \<longrightarrow>
            request n opts h s =
              (if signal_aborted (opt_signal opts) s then (Inl AbortError, s)
               else if ifAvailable opts then map_prod Inr id (tryDirect l h s)
               else map_prod Inr id (enter l h (opt_signal opts) s)))"
  using assms
  by (auto simp add: request_def requestLock_def Let_def split: option.splits prod.splits)

theorem request_mode_immutable_witness:
  "request ''a'' (shared_signal_options 0) 8 ctx_waiting = (Inl ModeError, ctx_waiting)"
proof -
  have 1: "collection_get ''a'' ctx_waiting = Some 0"
    by (simp add: scenario_defs api_defs prim_defs)
  have 2: "mode (lockh ctx_waiting 0) \<noteq> mode_of (shared_signal_options 0)"
    by (simp add: scenario_defs api_defs prim_defs)
  have 3: "validate ''a'' (shared_signal_options 0) = None"
    by (simp add: validate_def shared_signal_options_def mode_of_def)
  show ?thesis
    using request_mode_immutable[OF 1, of "mode_of (shared_signal_options 0)" "shared_signal_options 0" 8] 2 3
    by (simp add: prod_eq_iff)
qed

text \<open>
  C10 (a request whose signal is already aborted rejects with an AbortError). The
  check of the mode comes first: in \<open>ctx_aborted\<close> the lock \<open>''a''\<close> is registered as
  exclusive and signal 0 is aborted; a request for \<open>''a''\<close> in mode shared with that
  signal passes the option checks and fails with the mode error.
\<close>

theorem request_aborted_signal_counterexample:
  "aborted (signalh ctx_aborted 0) \<and>
   opt_signal (shared_signal_options 0) = Some 0 \<and>
   fst (request ''a'' (shared_signal_options 0) 8 ctx_aborted) \<noteq> Inl AbortError"
  by (simp add: scenario_defs api_defs prim_defs)

text \<open>
  C10, as amended: for every request that passes the option checks and whose signal is
  already aborted, the call fails with the mode error when a Lock of another mode is
  registered under the name and with the AbortError otherwise, and the state is
  unchanged when a Lock was registered; when none was, a new Lock with an empty queue
  and a fresh UNLOCKED flag is registered and its \<^verbatim>\<open>Create\<close> message sent, and
  nothing else changes: no task is created, queued or scheduled.
\<close>

theorem request_aborted_signal:
  assumes "validate n opts = None" and "opt_signal opts = Some g"
    and "aborted (signalh s g)"
  shows "case collection_get n s of
           Some l \<Rightarrow>
             request n opts h s =
               (Inl (if mode (lockh s l) = mode_of opts then AbortError else ModeError), s)
         | None \<Rightarrow>
             fst (request n opts h s) = Inl AbortError \<and>
             collection_get n (snd (request n opts h s)) = Some (nlocks s) \<and>
             lockh (snd (request n opts h s)) =
               (lockh s)(nlocks s :=
                  \<lparr>name = n, mode = mode_of opts, queue = [], owner = False,
                   trying = False, buffer = nbufs s\<rparr>) \<and>
             memory (snd (request n opts h s)) = (memory s)(nbufs s := UNLOCKED) \<and>
             trace (snd (request n opts h s)) =
               trace s @ [Sent (Message True ''create'' n (Some (mode_of opts)) (Some (nbufs s)))] \<and>
             taskh (snd (request n opts h s)) = taskh s \<and>
             ntasks (snd (request n opts h s)) = ntasks s \<and>
             timers (snd (request n opts h s)) = timers s \<and>
             running (snd (request n opts h s)) = running s"
  using assms
  by (auto simp add: request_def requestLock_def Let_def new_Lock_def collection_set_def
      collection_get_def map_of_alist_set signal_aborted_def prim_defs
      split: option.splits prod.splits)

theorem request_aborted_signal_witness:
  "request ''a'' (signal_options 0) 8 ctx_aborted = (Inl AbortError, ctx_aborted) \<and>
   fst (request ''b'' (signal_options 0) 8 ctx_aborted) = Inl AbortError \<and>
   collection_get ''b'' (snd (request ''b'' (signal_options 0) 8 ctx_aborted)) = Some 1 \<and>
   queue (lockh (snd (request ''b'' (signal_options 0) 8 ctx_aborted)) 1) = []"
proof -
  have 1: "validate ''a'' (signal_options 0) = None" "validate ''b'' (signal_options 0) = None"
    "opt_signal (signal_options 0) = Some 0" "mode_of (signal_options 0) = ''exclusive''"
    by (simp_all add: validate_def signal_options_def mode_of_def)
  have 2: "aborted (signalh ctx_aborted 0)" "collection_get ''a'' ctx_aborted = Some 0"
    "collection_get ''b'' ctx_aborted = None" "mode (lockh ctx_aborted 0) = ''exclusive''"
    "nlocks ctx_aborted = 1"
    by (simp_all add: scenario_defs api_defs prim_defs)
  show ?thesis
    using request_aborted_signal[OF 1(1) 1(3) 2(1), of 8]
      request_aborted_signal[OF 1(2) 1(3) 2(1), of 8] 1(4) 2(2-5)
    by simp
qed

section \<open>One step of \<^verbatim>\<open>tryEnter\<close> and \<^verbatim>\<open>leave\<close>\<close>

lemma leave_not_owner: "\<not> owner (lockh s l) \<Longrightarrow> leave l s = (None, s)"
  by (simp add: leave.simps)

lemma leave_owner: "owner (lockh s l) \<Longrightarrow> leave l s = tryEnter l (released l s)"
  by (simp add: leave.simps released_def prim_defs Let_def)

lemma tryEnter_empty: "queue (lockh s l) = [] \<Longrightarrow> tryEnter l s = (None, s)"
  by (simp add: tryEnter.simps)

lemma memory_rewrite_same: "memory s b = v \<Longrightarrow> s\<lparr>memory := (memory s)(b := v)\<rparr> = s"
  by (cases s) auto

lemma tryEnter_locked:
  "memory s (buffer (lockh s l)) = LOCKED \<Longrightarrow> tryEnter l s = (None, s)"
  by (simp add: tryEnter.simps Atomics_exchange_def memory_rewrite_same split: list.splits)

lemma released_simps:
  "memory (released l s) = (memory s)(buffer (lockh s l) := UNLOCKED)"
  "lockh (released l s) = (lockh s)(l := (lockh s l)\<lparr>owner := False\<rparr>)"
  "taskh (released l s) = taskh s"
  "signalh (released l s) = signalh s"
  "trace (released l s) = trace s @ [Sent (Message True ''leave'' (name (lockh s l)) None None)]"
  "running (released l s) = running s"
  "timers (released l s) = timers s"
  "collection (released l s) = collection s"
  "ntasks (released l s) = ntasks s"
  "npromises (released l s) = npromises s"
  "nlocks (released l s) = nlocks s"
  "nsignals (released l s) = nsignals s"
  "nbufs (released l s) = nbufs s"
  by (simp_all add: released_def prim_defs)

lemma acquired_simps:
  assumes "queue (lockh s l) = t # q"
  shows "memory (acquired l s) = (memory s)(buffer (lockh s l) := LOCKED)"
  "lockh (acquired l s) = (lockh s)(l := (lockh s l)\<lparr>owner := True, trying := False, queue := q\<rparr>)"
  "taskh (acquired l s) = (taskh s)(t := (taskh s t)\<lparr>entered := True\<rparr>)"
  "signalh (acquired l s) = signalh s"
  "trace (acquired l s) = trace s"
  "running (acquired l s) = running s"
  "timers (acquired l s) = timers s"
  "collection (acquired l s) = collection s"
  "ntasks (acquired l s) = ntasks s"
  "npromises (acquired l s) = npromises s"
  "nlocks (acquired l s) = nlocks s"
  "nsignals (acquired l s) = nsignals s"
  "nbufs (acquired l s) = nbufs s"
  using assms by (simp_all add: acquired_def prim_defs)

lemma tryEnter_step:
  assumes "queue (lockh s l) = t # q" and "memory s (buffer (lockh s l)) \<noteq> LOCKED"
  shows "tryEnter l s =
     (case signal (taskh s t) of
        None \<Rightarrow> (Some TypeError, acquired l s)
      | Some g \<Rightarrow>
          if aborted (signalh s g) then
            (case tryEnter l (released l (acquired l s)) of
               (Some e, s6) \<Rightarrow> (Some e, s6)
             | (None, s6) \<Rightarrow>
                 (None, if \<not> rejected (taskh s t)
                        then settle (promise (taskh s t)) (Rejected AbortError) s6
                        else s6))
          else (None, invoke (promise (taskh s t)) (handler (taskh s t)) (Some l)
                        (Cont (Some l) (promise (taskh s t))) (acquired l s)))"
proof -
  have o: "owner (lockh (acquired l s) l)"
    by (simp add: acquired_simps[OF assms(1)])
  have a: "acquired l s =
      upd_task t (\<lambda>T. T\<lparr>entered := True\<rparr>)
        (upd_lock l (\<lambda>L. L\<lparr>queue := q\<rparr>)
          (upd_lock l (\<lambda>L. L\<lparr>trying := False\<rparr>)
            (upd_lock l (\<lambda>L. L\<lparr>owner := True\<rparr>)
              (snd (Atomics_exchange (buffer (lockh s l)) LOCKED s)))))"
    using assms(1) by (simp add: acquired_def prim_defs)
  have e: "fst (Atomics_exchange (buffer (lockh s l)) LOCKED s) \<noteq> LOCKED"
    using assms(2) by (simp add: Atomics_exchange_def)
  show ?thesis
    apply (subst tryEnter.simps)
    using assms(1) e
    apply (simp add: Let_def split_def a[symmetric] leave_owner[OF o] acquired_simps[OF assms(1)]
                split: option.splits prod.splits)
    done
qed

lemma tryEnter_returns:
  "\<forall>u \<in> set (queue (lockh s l)). signal (taskh s u) \<noteq> None \<Longrightarrow> fst (tryEnter l s) = None"
proof (induction "queue (lockh s l)" arbitrary: s)
  case Nil
  then show ?case by (simp add: tryEnter_empty)
next
  case (Cons t q)
  note q = Cons.hyps(2)[symmetric]
  show ?case
  proof (cases "memory s (buffer (lockh s l)) = LOCKED")
    case True
    then show ?thesis by (simp add: tryEnter_locked)
  next
    case False
    have "fst (tryEnter l (released l (acquired l s))) = None"
      using Cons.prems q
      by (intro Cons.hyps(1)) (auto simp add: released_simps acquired_simps[OF q])
    then show ?thesis
      using Cons.prems q
      by (auto simp add: tryEnter_step[OF q False] split: option.splits prod.splits)
  qed
qed

lemma leave_returns:
  "\<forall>u \<in> set (queue (lockh s l)). signal (taskh s u) \<noteq> None \<Longrightarrow> fst (leave l s) = None"
  by (cases "owner (lockh s l)")
     (simp_all add: leave_not_owner leave_owner tryEnter_returns released_simps)

lemma tryEnter_events:
  "\<exists>ev. trace (snd (tryEnter l s)) = trace s @ ev \<and>
        (\<forall>e \<in> set ev. \<forall>p. mentions p e \<longrightarrow>
           p \<in> (\<lambda>u. promise (taskh s u)) ` set (queue (lockh s l)))"
proof (induction "queue (lockh s l)" arbitrary: s)
  case Nil
  then show ?case by (simp add: tryEnter_empty)
next
  case (Cons t q)
  note q = Cons.hyps(2)[symmetric]
  show ?case
  proof (cases "memory s (buffer (lockh s l)) = LOCKED")
    case True
    then show ?thesis by (simp add: tryEnter_locked)
  next
    case False
    let ?s' = "released l (acquired l s)"
    have "queue (lockh ?s' l) = q"
      by (simp add: released_simps acquired_simps[OF q])
    from Cons.hyps(1)[of ?s'] this obtain ev where
      ev: "trace (snd (tryEnter l ?s')) = trace ?s' @ ev"
        "\<forall>e \<in> set ev. \<forall>p. mentions p e \<longrightarrow> p \<in> (\<lambda>u. promise (taskh ?s' u)) ` set q"
      by auto
    have p: "\<And>u. promise (taskh ?s' u) = promise (taskh s u)"
      by (simp add: released_simps acquired_simps[OF q])
    have ev2: "\<forall>e \<in> set ev. \<forall>p. mentions p e \<longrightarrow> p \<in> (\<lambda>u. promise (taskh s u)) ` set q"
      using ev(2) by (simp only: p)
    have ev1: "trace (snd (tryEnter l ?s')) =
        trace s @ Sent (Message True ''leave'' (name (lockh s l)) None None) # ev"
      using ev(1) by (simp add: released_simps acquired_simps[OF q])
    show ?thesis
      using ev1 ev2 q
      by (auto simp add: tryEnter_step[OF q False] acquired_simps[OF q]
          mentions_def prim_defs split: option.splits prod.splits)
  qed
qed



section \<open>Cancellation at entry\<close>




text \<open>
  The tasks behind the head must carry signals for this: a task queued by a request
  made without one makes the retry throw before the rejection is reached. In
  \<open>ctx_entry_unsignalled\<close> the call throws a \<^verbatim>\<open>TypeError\<close>, the promise of the head
  task is not settled and the flag is left LOCKED.
\<close>

theorem cancellation_at_entry_unsignalled_successor:
  "queue (lockh ctx_entry_unsignalled 0) = [1, 2] \<and>
   signal (taskh ctx_entry_unsignalled 1) = Some 0 \<and>
   aborted (signalh ctx_entry_unsignalled 0) \<and>
   \<not> rejected (taskh ctx_entry_unsignalled 1) \<and>
   signal (taskh ctx_entry_unsignalled 2) = None \<and>
   fst (tryEnter 0 ctx_entry_unsignalled) = Some TypeError \<and>
   trace (snd (tryEnter 0 ctx_entry_unsignalled)) =
     trace ctx_entry_unsignalled @ [Sent leave_a] \<and>
   about 1 (trace (snd (tryEnter 0 ctx_entry_unsignalled))) = [] \<and>
   memory (snd (tryEnter 0 ctx_entry_unsignalled)) 0 = LOCKED \<and>
   owner (lockh (snd (tryEnter 0 ctx_entry_unsignalled)) 0)"
  by (simp add: about_def mentions_def scenario_defs api_defs prim_defs)

section \<open>Release\<close>

text \<open>
  The continuation that \<^verbatim>\<open>tryEnter\<close> leaves behind when it starts a handler is the
  one that \<open>handler_done\<close> completes.
\<close>

lemma tryEnter_starts_handler:
  assumes "queue (lockh s l) = t # q" and "memory s (buffer (lockh s l)) \<noteq> LOCKED"
    and "signal (taskh s t) = Some g" and "\<not> aborted (signalh s g)"
  shows "tryEnter l s =
           (None, invoke (promise (taskh s t)) (handler (taskh s t)) (Some l)
                    (Cont (Some l) (promise (taskh s t))) (acquired l s))"
  using assms(3,4) by (simp add: tryEnter_step[OF assms(1,2)])

lemma handler_done_of_invoke:
  "handler_done (length (running s)) out (invoke p h a k s) =
     complete k out (emit (Invoked p h a) s)"
  by (simp add: handler_done_def invoke_def emit_def)

text \<open>
  As long as every task in the queue of the lock carries a signal, \<^verbatim>\<open>leave\<close>
  returns normally: it is the identity when the lock is not owner, and otherwise
  \<^verbatim>\<open>tryEnter\<close> run on the state where the flag is UNLOCKED, owner is cleared and the
  release message has been sent; and the completion of a handler runs it first and
  settles the promise with the outcome of the handler last.
\<close>

lemma leave_with_signalled_queue:
  assumes "\<forall>u \<in> set (queue (lockh s l)). signal (taskh s u) \<noteq> None"
  shows "(\<not> owner (lockh s l) \<longrightarrow> leave l s = (None, s)) \<and>
         (owner (lockh s l) \<longrightarrow> leave l s = tryEnter l (released l s)) \<and>
         memory (released l s) (buffer (lockh s l)) = UNLOCKED \<and>
         \<not> owner (lockh (released l s) l) \<and>
         trace (released l s) =
           trace s @ [Sent (Message True ''leave'' (name (lockh s l)) None None)] \<and>
         fst (leave l s) = None \<and>
         complete (Cont (Some l) p) out s = settle p out (snd (leave l s)) \<and>
         (\<exists>ev. trace (complete (Cont (Some l) p) out s) =
                 trace s
                 @ (if owner (lockh s l)
                    then [Sent (Message True ''leave'' (name (lockh s l)) None None)] else [])
                 @ ev @ [Settled p out])"
proof -
  have r: "fst (leave l s) = None" using assms by (rule leave_returns)
  then obtain s1 where s1: "leave l s = (None, s1)" by (cases "leave l s") auto
  have c: "complete (Cont (Some l) p) out s = settle p out (snd (leave l s))"
    using s1 by (cases out) simp_all
  have "\<exists>ev. trace (snd (leave l s)) =
          trace s @ (if owner (lockh s l)
                     then [Sent (Message True ''leave'' (name (lockh s l)) None None)] else [])
          @ ev"
  proof (cases "owner (lockh s l)")
    case True
    then show ?thesis
      using tryEnter_events[of l "released l s"]
      by (auto simp add: leave_owner released_simps)
  next
    case False
    then show ?thesis by (simp add: leave_not_owner)
  qed
  then have t: "\<exists>ev. trace (complete (Cont (Some l) p) out s) =
                 trace s
                 @ (if owner (lockh s l)
                    then [Sent (Message True ''leave'' (name (lockh s l)) None None)] else [])
                 @ ev @ [Settled p out]"
    by (auto simp add: c prim_defs)
  show ?thesis
    using r c t by (simp add: leave_not_owner leave_owner released_simps)
qed

text \<open>
  C9 (release protocol; after a handler finishes, \<^verbatim>\<open>leave\<close> runs, the flag is not
  left held and a thrown error reaches the caller verbatim). In
  \<open>ctx_unsignalled_waiter\<close> handler 7 holds \<open>''a''\<close> for promise 0 and a request made
  without a signal has queued task 1 behind it. When handler 7 throws, \<^verbatim>\<open>leave\<close>
  releases the flag, sends the release message and retries; the retry takes the flag
  again for task 1 and throws a \<^verbatim>\<open>TypeError\<close> on its null signal, inside the
  \<^verbatim>\<open>catch\<close> callback and before \<^verbatim>\<open>reject(err)\<close>. Promise 0 is never settled, the
  error of the handler reaches nobody, and the flag stays LOCKED with owner set and
  nothing left to release it.
\<close>

theorem handler_error_lost_and_flag_left_held:
  "running ctx_unsignalled_waiter = [Cont (Some 0) 0] \<and>
   owner (lockh ctx_unsignalled_waiter 0) \<and>
   queue (lockh ctx_unsignalled_waiter 0) = [1] \<and>
   signal (taskh ctx_unsignalled_waiter 1) = None \<and>
   trace (handler_done 0 (Rejected (Thrown 5)) ctx_unsignalled_waiter) =
     trace ctx_unsignalled_waiter @ [Sent leave_a, Uncaught TypeError] \<and>
   about 0 (trace (handler_done 0 (Rejected (Thrown 5)) ctx_unsignalled_waiter)) =
     [Invoked 0 7 (Some 0)] \<and>
   memory (handler_done 0 (Rejected (Thrown 5)) ctx_unsignalled_waiter) 0 = LOCKED \<and>
   owner (lockh (handler_done 0 (Rejected (Thrown 5)) ctx_unsignalled_waiter) 0) \<and>
   running (handler_done 0 (Rejected (Thrown 5)) ctx_unsignalled_waiter) = [] \<and>
   timers (handler_done 0 (Rejected (Thrown 5)) ctx_unsignalled_waiter) = []"
  by (simp add: about_def mentions_def scenario_defs api_defs prim_defs)

section \<open>Cancellation before entry\<close>

subsection \<open>The abort event\<close>















subsection \<open>Every later turn keeps the cancelled task settled once\<close>

































end
